theory Spec2Isabelle
  imports Main "HOL-Library.AList"
begin

section \<open>Data of the workspace updater\<close>

text \<open>
  The embedding follows \<^verbatim>\<open>src/index.ts\<close> from the point where the manifest has been
  located and handed to \<^verbatim>\<open>yaml.load\<close>. Strings are ASCII texts. A value loaded from
  YAML is a scalar, a sequence or a mapping; a mapping is an association list in the
  enumeration order of the JavaScript object, whose keys are pairwise different.
  The payload of a number is only ever tested for being zero.
\<close>

datatype yval =
    YNull
  | YBool bool
  | YNum int
  | YStr string
  | YSeq "yval list"
  | YMap "(string \<times> yval) list"

text \<open>JavaScript truthiness of a loaded value, as used by \<^verbatim>\<open>if (catalog[name])\<close>.\<close>

fun truthy :: "yval \<Rightarrow> bool" where
  "truthy YNull = False"
| "truthy (YBool b) = b"
| "truthy (YNum n) = (n \<noteq> 0)"
| "truthy (YStr s) = (s \<noteq> [])"
| "truthy (YSeq xs) = True"
| "truthy (YMap kvs) = True"

type_synonym catalog_map = "(string \<times> yval) list"

text \<open>
  \<^verbatim>\<open>interface PnpmWorkspace { catalog?: { [key: string]: string } }\<close>: the document
  is an object with an optional catalog mapping. \<open>catalog = None\<close> stands for an absent
  or falsy field; \<open>others\<close> holds every other top-level entry of the document. The
  values of the catalog are arbitrary loaded values, since the code tests
  \<^verbatim>\<open>typeof version\<close> at run time.
\<close>

record PnpmWorkspace =
  catalog :: "catalog_map option"
  others :: "(string \<times> yval) list"

datatype release_type =
  Major | Minor | Patch | Premajor | Preminor | Prepatch | Prerelease

text \<open>
  \<^verbatim>\<open>type OutdatedInfo = { name; current; latest; type: 'major' | ... | null }\<close>
\<close>

record OutdatedInfo =
  name :: string
  current :: string
  latest :: string
  type :: "release_type option"

text \<open>Every exception raised on the paths modelled here is a \<^verbatim>\<open>TypeError\<close>.\<close>

datatype error = TypeError

text \<open>
  The four functions imported from the \<^verbatim>\<open>semver\<close> package are not part of the
  repository; the pipeline takes them as a parameter. \<open>prerelease\<close> and \<open>valid\<close>
  return an array or a string, or \<^verbatim>\<open>null\<close>; the code only tests the result for
  truthiness, which is what the two fields give. \<open>gt\<close> and \<open>diff\<close> construct
  versions from their arguments and throw on a text that is not a version.
\<close>

record semver =
  gt :: "string \<Rightarrow> string \<Rightarrow> error + bool"
  prerelease :: "string \<Rightarrow> bool"
  valid :: "string \<Rightarrow> bool"
  diff :: "string \<Rightarrow> string \<Rightarrow> error + release_type option"

text \<open>
  What the registry does for one request: the request or the decoding of its body
  throws, the response is not \<^verbatim>\<open>ok\<close> (with its status text), or the body is a
  \<^verbatim>\<open>NpmPackage\<close> with its \<^verbatim>\<open>dist-tags.latest\<close>.
\<close>

datatype reply = Rejected | NotOk string | Json string

text \<open>The flags read from \<^verbatim>\<open>Bun.argv\<close>.\<close>

record flags =
  shouldUpdate :: bool
  updatePatch :: bool
  updateMinor :: bool
  updateMajor :: bool

text \<open>
  What a run leaves behind: the lines sent to the console, and the document passed to
  \<^verbatim>\<open>yaml.dump\<close> and written over the manifest, if any.
\<close>

record run =
  console :: "string list"
  written :: "PnpmWorkspace option"

section \<open>Fetching and classifying\<close>

text \<open>
  \<^verbatim>\<open>getLatestVersion\<close>: both failures are caught inside the function, logged, and
  turned into \<^verbatim>\<open>null\<close>. The result is paired with the lines logged; the error
  object that \<^verbatim>\<open>console.error\<close> prints after its message is left out of the line.
\<close>

definition getLatestVersion :: "(string \<Rightarrow> reply) \<Rightarrow> string \<Rightarrow> string list \<times> string option" where
  "getLatestVersion registry packageName =
     (case registry packageName of
        NotOk statusText \<Rightarrow>
          ([''Failed to fetch version for '' @ packageName @ '': '' @ statusText], None)
      | Json latestVersion \<Rightarrow> ([], Some latestVersion)
      | Rejected \<Rightarrow> ([''Error fetching version for '' @ packageName @ '':''], None))"

text \<open>\<^verbatim>\<open>version.replace(/[^\d.]/g, '')\<close>\<close>

definition cleanVersion :: "string \<Rightarrow> string" where
  "cleanVersion version = filter (\<lambda>c. c \<in> set ''0123456789.'') version"

text \<open>
  The function mapped over \<^verbatim>\<open>Object.entries(catalog)\<close>. \<^verbatim>\<open>version?.replace\<close> is
  evaluated first: it is skipped for \<^verbatim>\<open>null\<close>, is the replacement for a string, and
  throws for every other value, which has no \<^verbatim>\<open>replace\<close> method.
\<close>

fun promise :: "semver \<Rightarrow> (string \<Rightarrow> reply) \<Rightarrow> string \<times> yval \<Rightarrow> string list \<times> (error + OutdatedInfo option)" where
  "promise sv registry (nm, YNull) = ([], Inr None)"
| "promise sv registry (nm, YStr version) =
     (if prerelease sv version \<or> \<not> valid sv (cleanVersion version) then ([], Inr None)
      else
        (case getLatestVersion registry nm of
           (logs, None) \<Rightarrow> (logs, Inr None)
         | (logs, Some latestVersion) \<Rightarrow>
             if latestVersion = [] then (logs, Inr None)
             else
               (case gt sv latestVersion (cleanVersion version) of
                  Inl e \<Rightarrow> (logs, Inl e)
                | Inr False \<Rightarrow> (logs, Inr None)
                | Inr True \<Rightarrow>
                    (case diff sv (cleanVersion version) latestVersion of
                       Inl e \<Rightarrow> (logs, Inl e)
                     | Inr diffType \<Rightarrow>
                         (logs, Inr (Some \<lparr>name = nm, current = version,
                                           latest = latestVersion, type = diffType\<rparr>))))))"
| "promise sv registry (nm, v) = ([], Inl TypeError)"

text \<open>
  \<^verbatim>\<open>Promise.all\<close>: every request runs to its end, and the whole rejects when one of
  them rejects. The lines logged by the requests are listed in catalog order.
\<close>

fun all_results :: "(error + 'a) list \<Rightarrow> error + 'a list" where
  "all_results [] = Inr []"
| "all_results (Inl e # rs) = Inl e"
| "all_results (Inr x # rs) =
     (case all_results rs of Inl e \<Rightarrow> Inl e | Inr xs \<Rightarrow> Inr (x # xs))"

definition promise_all :: "(string list \<times> (error + 'a)) list \<Rightarrow> string list \<times> (error + 'a list)" where
  "promise_all ps = (concat (map fst ps), all_results (map snd ps))"

text \<open>\<^verbatim>\<open>results.filter(result => result !== null)\<close>\<close>

definition outdated_of :: "OutdatedInfo option list \<Rightarrow> OutdatedInfo list" where
  "outdated_of results = List.map_filter id results"

section \<open>Reporting\<close>

datatype bucket = Bucket release_type | Other

type_synonym grouped = "(bucket \<times> OutdatedInfo list) list"

definition grouped_init :: grouped where
  "grouped_init =
     [(Bucket Major, []), (Bucket Minor, []), (Bucket Patch, []), (Bucket Premajor, []),
      (Bucket Preminor, []), (Bucket Prepatch, []), (Bucket Prerelease, [])]"

text \<open>\<^verbatim>\<open>grouped[key].push(dep)\<close>\<close>

definition push :: "bucket \<Rightarrow> OutdatedInfo \<Rightarrow> grouped \<Rightarrow> grouped" where
  "push key dep g = map (\<lambda>(k, deps). if k = key then (k, deps @ [dep]) else (k, deps)) g"

text \<open>The first \<^verbatim>\<open>forEach\<close>: an entry with a type that has a bucket goes there.\<close>

definition group_known :: "grouped \<Rightarrow> OutdatedInfo \<Rightarrow> grouped" where
  "group_known g dep =
     (case type dep of
        None \<Rightarrow> g
      | Some t \<Rightarrow> if map_of g (Bucket t) \<noteq> None then push (Bucket t) dep g else g)"

text \<open>The second \<^verbatim>\<open>forEach\<close>: an entry with a type that has no bucket goes to \<^verbatim>\<open>other\<close>.\<close>

definition group_other :: "grouped \<Rightarrow> OutdatedInfo \<Rightarrow> grouped" where
  "group_other g dep =
     (case type dep of
        None \<Rightarrow> g
      | Some t \<Rightarrow>
          if map_of g (Bucket t) = None
          then push Other dep (if map_of g Other = None then g @ [(Other, [])] else g)
          else g)"

definition group_all :: "OutdatedInfo list \<Rightarrow> grouped" where
  "group_all outdated = foldl group_other (foldl group_known grouped_init outdated) outdated"

definition bucket_of :: "grouped \<Rightarrow> bucket \<Rightarrow> OutdatedInfo list" where
  "bucket_of g key = (case map_of g key of Some deps \<Rightarrow> deps | None \<Rightarrow> [])"

definition entry_line :: "OutdatedInfo \<Rightarrow> string" where
  "entry_line dep = ''    '' @ name dep @ '': '' @ current dep @ '' -> '' @ latest dep"

definition header :: "string \<Rightarrow> string \<Rightarrow> string" where
  "header colour title =
     [CHR 0x0A] @ ''  '' @ [CHR 0x1B] @ ''['' @ colour @ ''m'' @ title @ '' Updates:''
       @ [CHR 0x1B] @ ''[0m''"

definition section_lines :: "string \<Rightarrow> OutdatedInfo list \<Rightarrow> string list" where
  "section_lines head deps = (if deps \<noteq> [] then head # map entry_line deps else [])"

text \<open>The lines of the report: the three \<^verbatim>\<open>if (grouped.X.length)\<close> blocks.\<close>

definition report :: "grouped \<Rightarrow> string list" where
  "report g =
     ''Outdated dependencies found:''
       # section_lines (header ''31'' ''Major'') (bucket_of g (Bucket Major))
       @ section_lines (header ''34'' ''Minor'') (bucket_of g (Bucket Minor))
       @ section_lines (header ''32'' ''Patch'') (bucket_of g (Bucket Patch))"

section \<open>Updating\<close>

definition toUpdate :: "flags \<Rightarrow> OutdatedInfo list \<Rightarrow> OutdatedInfo list" where
  "toUpdate f outdated =
     (if updatePatch f \<or> updateMinor f \<or> updateMajor f
      then filter (\<lambda>dep. (updatePatch f \<and> type dep = Some Patch)
                        \<or> (updateMinor f \<and> type dep = Some Minor)
                        \<or> (updateMajor f \<and> type dep = Some Major)) outdated
      else outdated)"

text \<open>\<^verbatim>\<open>current.startsWith('^') ? `^${latest}` : latest\<close>\<close>

definition startsWith :: "string \<Rightarrow> string \<Rightarrow> bool" where
  "startsWith s p = (take (length p) s = p)"

definition new_value :: "OutdatedInfo \<Rightarrow> string" where
  "new_value dep = (if startsWith (current dep) ''^'' then ''^'' @ latest dep else latest dep)"

text \<open>\<^verbatim>\<open>if (catalog[name]) catalog[name] = ...\<close>\<close>

definition write_entry :: "catalog_map \<Rightarrow> OutdatedInfo \<Rightarrow> catalog_map" where
  "write_entry cat dep =
     (case map_of cat (name dep) of
        None \<Rightarrow> cat
      | Some v \<Rightarrow> if truthy v then AList.update (name dep) (YStr (new_value dep)) cat else cat)"

definition apply_updates :: "catalog_map \<Rightarrow> OutdatedInfo list \<Rightarrow> catalog_map" where
  "apply_updates cat deps = foldl write_entry cat deps"

section \<open>The run\<close>

text \<open>The decimal digits of \<^verbatim>\<open>dependencies.length\<close> in the template literal.\<close>

fun digits :: "nat \<Rightarrow> string" where
  "digits n =
     (if n < 10 then [char_of (48 + n)]
      else digits (n div 10) @ [char_of (48 + n mod 10)])"

declare digits.simps [simp del]

text \<open>\<^verbatim>\<open>doc.catalog || {}\<close>\<close>

definition catalog_of :: "PnpmWorkspace \<Rightarrow> catalog_map" where
  "catalog_of doc = (case catalog doc of None \<Rightarrow> [] | Some cat \<Rightarrow> cat)"

text \<open>The outdated entries of a catalog, with the lines logged while fetching.\<close>

definition outdated :: "semver \<Rightarrow> (string \<Rightarrow> reply) \<Rightarrow> catalog_map \<Rightarrow> string list \<times> (error + OutdatedInfo list)" where
  "outdated sv registry cat =
     (case promise_all (map (promise sv registry) cat) of
        (logs, Inl e) \<Rightarrow> (logs, Inl e)
      | (logs, Inr results) \<Rightarrow> (logs, Inr (outdated_of results)))"

text \<open>
  The document handed to \<^verbatim>\<open>yaml.dump\<close>. The catalog mutated by the update is the
  object inside the document when the field was truthy, and a detached empty object
  otherwise.
\<close>

definition updated_doc :: "PnpmWorkspace \<Rightarrow> OutdatedInfo list \<Rightarrow> PnpmWorkspace" where
  "updated_doc doc deps =
     (case catalog doc of
        None \<Rightarrow> doc
      | Some cat \<Rightarrow> doc\<lparr>catalog := Some (apply_updates cat deps)\<rparr>)"

text \<open>
  \<^verbatim>\<open>checkDependencies\<close>, from the result of \<^verbatim>\<open>yaml.load\<close> on: \<open>None\<close> is the
  \<^verbatim>\<open>undefined\<close> loaded from an empty file, on which \<^verbatim>\<open>doc.catalog\<close> throws. Every
  exception ends in the \<^verbatim>\<open>catch\<close> of the function, which logs it; nothing is written
  then. When \<^verbatim>\<open>Promise.all\<close> rejects, the lookups still pending log their lines
  after the \<^verbatim>\<open>catch\<close> has logged the error: a value without \<^verbatim>\<open>replace\<close> rejects
  before any response has arrived, so the error line is put first (when \<^verbatim>\<open>gt\<close>
  throws, where the lines of the other lookups fall depends on timing).
\<close>

definition checkDependencies :: "semver \<Rightarrow> flags \<Rightarrow> (string \<Rightarrow> reply) \<Rightarrow> PnpmWorkspace option \<Rightarrow> run" where
  "checkDependencies sv f registry loaded =
     (case loaded of
        None \<Rightarrow> \<lparr>console = [''Error checking dependencies:''], written = None\<rparr>
      | Some doc \<Rightarrow>
          (let cat = catalog_of doc;
               found = ''Found '' @ digits (length cat)
                 @ '' dependencies in catalog. Fetching latest versions in parallel...''
           in case outdated sv registry cat of
                (logs, Inl e) \<Rightarrow>
                  \<lparr>console = found # ''Error checking dependencies:'' # logs, written = None\<rparr>
              | (logs, Inr deps) \<Rightarrow>
                  if deps \<noteq> [] then
                    (if shouldUpdate f then
                       \<lparr>console = found # logs @ report (group_all deps)
                          @ [[CHR 0x0A] @ ''--update flag detected. Updating pnpm-workspace.yaml...'',
                             ''pnpm-workspace.yaml has been updated.''],
                        written = Some (updated_doc doc (toUpdate f deps))\<rparr>
                     else \<lparr>console = found # logs @ report (group_all deps), written = None\<rparr>)
                  else \<lparr>console = found # logs @ [''All dependencies are up to date.''],
                        written = None\<rparr>))"

section \<open>A model of the version library\<close>

text \<open>
  Modelled from the spec: the \<^verbatim>\<open>semver\<close> package (\<^verbatim>\<open>gt\<close>, \<^verbatim>\<open>prerelease\<close>,
  \<^verbatim>\<open>valid\<close>, \<^verbatim>\<open>diff\<close>) is imported by \<^verbatim>\<open>src/index.ts\<close> and is not part of the
  repository. The definitions below follow the spec's "standard semantic-version
  precedence rules (major.minor.patch, with pre-release segments sorting below the
  corresponding release)" and its seven delta types, in the strict reading of the
  version grammar: an optional \<^verbatim>\<open>v\<close>, three numeric identifiers without leading
  zeros, an optional pre-release after \<^verbatim>\<open>-\<close> and optional build metadata after \<^verbatim>\<open>+\<close>.
  The delta type is named after the first of major, minor and patch in which the two
  versions differ, with the prefix \<^verbatim>\<open>pre\<close> when the higher version is a pre-release,
  and is \<^verbatim>\<open>prerelease\<close> when only the pre-release segments differ. The definitions
  serve as the concrete library in the examples; the theorems about the pipeline
  hold for every library.
\<close>

definition is_digit :: "char \<Rightarrow> bool" where
  "is_digit c = (c \<in> set ''0123456789'')"

text \<open>The characters that \<open>cleanVersion\<close> keeps.\<close>

definition is_plain :: "char \<Rightarrow> bool" where
  "is_plain c = (c \<in> set ''0123456789.'')"

definition is_ident_char :: "char \<Rightarrow> bool" where
  "is_ident_char c =
     (is_digit c \<or> c \<in> set ''abcdefghijklmnopqrstuvwxyzABCDEFGHIJKLMNOPQRSTUVWXYZ-'')"

definition is_space :: "char \<Rightarrow> bool" where
  "is_space c = (c \<in> set [CHR '' '', CHR 0x09, CHR 0x0A, CHR 0x0B, CHR 0x0C, CHR 0x0D])"

definition trim :: "string \<Rightarrow> string" where
  "trim s = rev (dropWhile is_space (rev (dropWhile is_space s)))"

fun split_on :: "char \<Rightarrow> string \<Rightarrow> string list" where
  "split_on sep [] = [[]]"
| "split_on sep (c # cs) =
     (if c = sep then [] # split_on sep cs
      else (case split_on sep cs of [] \<Rightarrow> [[c]] | w # ws \<Rightarrow> (c # w) # ws))"

definition before :: "char \<Rightarrow> string \<Rightarrow> string" where
  "before sep s = takeWhile (\<lambda>c. c \<noteq> sep) s"

definition after :: "char \<Rightarrow> string \<Rightarrow> string option" where
  "after sep s = (case dropWhile (\<lambda>c. c \<noteq> sep) s of [] \<Rightarrow> None | c # cs \<Rightarrow> Some cs)"

definition numeric_identifier :: "string \<Rightarrow> bool" where
  "numeric_identifier s = (s \<noteq> [] \<and> list_all is_digit s \<and> (s = ''0'' \<or> hd s \<noteq> CHR ''0''))"

definition prerelease_identifier :: "string \<Rightarrow> bool" where
  "prerelease_identifier s =
     (numeric_identifier s \<or> (s \<noteq> [] \<and> list_all is_ident_char s \<and> \<not> list_all is_digit s))"

definition build_identifier :: "string \<Rightarrow> bool" where
  "build_identifier s = (s \<noteq> [] \<and> list_all is_ident_char s)"

definition digit_value :: "char \<Rightarrow> nat" where
  "digit_value c = of_char c - 48"

definition number_of :: "string \<Rightarrow> nat" where
  "number_of s = foldl (\<lambda>n c. 10 * n + digit_value c) 0 s"

definition MAX_SAFE_INTEGER :: nat where
  "MAX_SAFE_INTEGER = 9007199254740991"

definition MAX_LENGTH :: nat where
  "MAX_LENGTH = 256"

record SemVer =
  major :: nat
  minor :: nat
  patch :: nat
  pre :: "string list"

definition unprefixed :: "string \<Rightarrow> string" where
  "unprefixed version =
     (case trim version of [] \<Rightarrow> [] | c # cs \<Rightarrow> if c = CHR ''v'' then cs else c # cs)"

definition main_version :: "string list \<Rightarrow> (nat \<times> nat \<times> nat) option" where
  "main_version ids =
     (case ids of
        [ma, mi, pa] \<Rightarrow>
          if numeric_identifier ma \<and> numeric_identifier mi \<and> numeric_identifier pa
             \<and> number_of ma \<le> MAX_SAFE_INTEGER \<and> number_of mi \<le> MAX_SAFE_INTEGER
             \<and> number_of pa \<le> MAX_SAFE_INTEGER
          then Some (number_of ma, number_of mi, number_of pa)
          else None
      | _ \<Rightarrow> None)"

definition identifiers_ok :: "(string \<Rightarrow> bool) \<Rightarrow> string option \<Rightarrow> bool" where
  "identifiers_ok ok part =
     (case part of None \<Rightarrow> True | Some p \<Rightarrow> list_all ok (split_on CHR ''.'' p))"

definition parse :: "string \<Rightarrow> SemVer option" where
  "parse version =
     (if MAX_LENGTH < length version then None
      else
        (let body = unprefixed version;
             build = after CHR ''+'' body;
             front = before CHR ''+'' body;
             pr = after CHR ''-'' front;
             core = before CHR ''-'' front
         in case main_version (split_on CHR ''.'' core) of
              None \<Rightarrow> None
            | Some (ma, mi, pa) \<Rightarrow>
                if identifiers_ok prerelease_identifier pr \<and> identifiers_ok build_identifier build
                then Some \<lparr>major = ma, minor = mi, patch = pa,
                           pre = (case pr of None \<Rightarrow> [] | Some p \<Rightarrow> split_on CHR ''.'' p)\<rparr>
                else None))"

definition sign :: "nat \<Rightarrow> nat \<Rightarrow> int" where
  "sign a b = (if a < b then - 1 else if b < a then 1 else 0)"

fun text_less :: "string \<Rightarrow> string \<Rightarrow> bool" where
  "text_less [] [] = False"
| "text_less [] (b # bs) = True"
| "text_less (a # as) [] = False"
| "text_less (a # as) (b # bs) =
     ((of_char a :: nat) < of_char b \<or> (a = b \<and> text_less as bs))"

definition compareIdentifiers :: "string \<Rightarrow> string \<Rightarrow> int" where
  "compareIdentifiers a b =
     (if list_all is_digit a \<and> list_all is_digit b then sign (number_of a) (number_of b)
      else if a = b then 0
      else if list_all is_digit a then - 1
      else if list_all is_digit b then 1
      else if text_less a b then - 1 else 1)"

fun compare_identifier_lists :: "string list \<Rightarrow> string list \<Rightarrow> int" where
  "compare_identifier_lists [] [] = 0"
| "compare_identifier_lists (a # as) [] = 1"
| "compare_identifier_lists [] (b # bs) = - 1"
| "compare_identifier_lists (a # as) (b # bs) =
     (if compareIdentifiers a b = 0 then compare_identifier_lists as bs
      else compareIdentifiers a b)"

definition compareMain :: "SemVer \<Rightarrow> SemVer \<Rightarrow> int" where
  "compareMain v w =
     (if sign (major v) (major w) \<noteq> 0 then sign (major v) (major w)
      else if sign (minor v) (minor w) \<noteq> 0 then sign (minor v) (minor w)
      else sign (patch v) (patch w))"

definition comparePre :: "SemVer \<Rightarrow> SemVer \<Rightarrow> int" where
  "comparePre v w =
     (if pre v \<noteq> [] \<and> pre w = [] then - 1
      else if pre v = [] \<and> pre w \<noteq> [] then 1
      else if pre v = [] \<and> pre w = [] then 0
      else compare_identifier_lists (pre v) (pre w))"

definition compare :: "SemVer \<Rightarrow> SemVer \<Rightarrow> int" where
  "compare v w = (if compareMain v w \<noteq> 0 then compareMain v w else comparePre v w)"

definition std_gt :: "string \<Rightarrow> string \<Rightarrow> error + bool" where
  "std_gt a b =
     (case parse a of
        None \<Rightarrow> Inl TypeError
      | Some v \<Rightarrow> (case parse b of None \<Rightarrow> Inl TypeError | Some w \<Rightarrow> Inr (0 < compare v w)))"

definition std_prerelease :: "string \<Rightarrow> bool" where
  "std_prerelease version = (case parse version of None \<Rightarrow> False | Some v \<Rightarrow> pre v \<noteq> [])"

definition std_valid :: "string \<Rightarrow> bool" where
  "std_valid version = (parse version \<noteq> None)"

definition release_diff :: "SemVer \<Rightarrow> SemVer \<Rightarrow> release_type option" where
  "release_diff v1 v2 =
     (if compare v1 v2 = 0 then None
      else
        (let high = (if 0 < compare v1 v2 then v1 else v2)
         in if major v1 \<noteq> major v2 then Some (if pre high \<noteq> [] then Premajor else Major)
            else if minor v1 \<noteq> minor v2 then Some (if pre high \<noteq> [] then Preminor else Minor)
            else if patch v1 \<noteq> patch v2 then Some (if pre high \<noteq> [] then Prepatch else Patch)
            else Some Prerelease))"

definition std_diff :: "string \<Rightarrow> string \<Rightarrow> error + release_type option" where
  "std_diff a b =
     (case parse a of
        None \<Rightarrow> Inl TypeError
      | Some v1 \<Rightarrow> (case parse b of None \<Rightarrow> Inl TypeError | Some v2 \<Rightarrow> Inr (release_diff v1 v2)))"

definition std :: semver where
  "std = \<lparr>gt = std_gt, prerelease = std_prerelease, valid = std_valid, diff = std_diff\<rparr>"

section \<open>Example inputs\<close>

text \<open>
  A registry and the manifests used in the examples below: the two-entry catalog of
  the end-to-end scenario, a catalog whose latest version is a pre-release, catalogs
  with a tilde and a caret range, a catalog with a package the registry does not know,
  and a catalog holding a YAML number.
\<close>

definition example_registry :: "string \<Rightarrow> reply" where
  "example_registry n =
     (if n = ''foo'' then Json ''2.0.0''
      else if n = ''bar'' then Json ''2.0.1''
      else if n = ''next-lib'' then Json ''2.0.0-beta.1''
      else if n = ''left-pad'' then Json ''1.3.0''
      else if n = ''is-odd'' then Json ''1.3.0''
      else if n = ''gone'' then NotOk ''Not Found''
      else Rejected)"


definition update_all :: flags where
  "update_all = \<lparr>shouldUpdate = True, updatePatch = False, updateMinor = False, updateMajor = False\<rparr>"

definition update_patch :: flags where
  "update_patch = \<lparr>shouldUpdate = True, updatePatch = True, updateMinor = False, updateMajor = False\<rparr>"

definition packages_field :: "(string \<times> yval) list" where
  "packages_field = [(''packages'', YSeq [YStr ''packages/*''])]"

definition foo_bar_catalog :: catalog_map where
  "foo_bar_catalog = [(''foo'', YStr ''^1.0.0''), (''bar'', YStr ''2.0.0'')]"

definition foo_bar_doc :: PnpmWorkspace where
  "foo_bar_doc = \<lparr>catalog = Some foo_bar_catalog, others = packages_field\<rparr>"

definition next_catalog :: catalog_map where
  "next_catalog = [(''next-lib'', YStr ''^1.0.0'')]"

definition next_doc :: PnpmWorkspace where
  "next_doc = \<lparr>catalog = Some next_catalog, others = packages_field\<rparr>"

definition tilde_catalog :: catalog_map where
  "tilde_catalog = [(''left-pad'', YStr ''~1.2.3'')]"

definition tilde_doc :: PnpmWorkspace where
  "tilde_doc = \<lparr>catalog = Some tilde_catalog, others = packages_field\<rparr>"

definition caret_catalog :: catalog_map where
  "caret_catalog = [(''left-pad'', YStr ''^1.2.3''), (''is-odd'', YStr ''1.2.3'')]"

definition caret_doc :: PnpmWorkspace where
  "caret_doc = \<lparr>catalog = Some caret_catalog, others = packages_field\<rparr>"

definition mixed_catalog :: catalog_map where
  "mixed_catalog =
     [(''left-pad'', YStr ''^1.2.3''), (''next-lib'', YStr ''^1.0.0''), (''bar'', YStr ''2.0.1'')]"

definition mixed_doc :: PnpmWorkspace where
  "mixed_doc = \<lparr>catalog = Some mixed_catalog, others = packages_field\<rparr>"

definition gone_catalog :: catalog_map where
  "gone_catalog = [(''gone'', YStr ''1.0.0''), (''bar'', YStr ''2.0.0'')]"

definition number_catalog :: catalog_map where
  "number_catalog = [(''left-pad'', YStr ''^1.2.3''), (''typescript'', YNum 5)]"

definition number_doc :: PnpmWorkspace where
  "number_doc = \<lparr>catalog = Some number_catalog, others = packages_field\<rparr>"

section \<open>Facts about classification\<close>

lemma promise_Some_iff:
  "snd (promise sv registry (n, v)) = Inr (Some d) \<longleftrightarrow>
     (\<exists>s l t. v = YStr s \<and> \<not> prerelease sv s \<and> valid sv (cleanVersion s)
        \<and> registry n = Json l \<and> l \<noteq> [] \<and> gt sv l (cleanVersion s) = Inr True
        \<and> diff sv (cleanVersion s) l = Inr t
        \<and> d = \<lparr>name = n, current = s, latest = l, type = t\<rparr>)"
  by (cases v) (auto simp: getLatestVersion_def split: reply.splits sum.splits bool.splits)

lemma outdated_Nil: "snd (outdated sv registry []) = Inr []"
  by (simp add: outdated_def promise_all_def outdated_of_def)

lemma outdated_Cons:
  "snd (outdated sv registry (kv # cat)) =
     (case snd (promise sv registry kv) of
        Inl e \<Rightarrow> Inl e
      | Inr r \<Rightarrow>
          (case snd (outdated sv registry cat) of
             Inl e \<Rightarrow> Inl e
           | Inr deps \<Rightarrow> Inr (case r of None \<Rightarrow> deps | Some d \<Rightarrow> d # deps)))"
  by (simp add: outdated_def promise_all_def outdated_of_def
      split: sum.splits option.splits prod.splits)

lemma outdated_mem:
  "snd (outdated sv registry cat) = Inr deps \<Longrightarrow> d \<in> set deps \<Longrightarrow>
     \<exists>v. (name d, v) \<in> set cat \<and> snd (promise sv registry (name d, v)) = Inr (Some d)"
proof (induction cat arbitrary: deps)
  case Nil
  then show ?case by (simp add: outdated_Nil)
next
  case (Cons kv cat)
  obtain k v where kv: "kv = (k, v)" by (cases kv)
  from Cons.prems(1) obtain r deps' where
    r: "snd (promise sv registry kv) = Inr r" and
    deps': "snd (outdated sv registry cat) = Inr deps'" and
    deps: "deps = (case r of None \<Rightarrow> deps' | Some d \<Rightarrow> d # deps')"
    by (auto simp: outdated_Cons split: sum.splits)
  show ?case
  proof (cases "d \<in> set deps'")
    case True
    from Cons.IH[OF deps' True] show ?thesis by auto
  next
    case False
    with Cons.prems(2) deps have rd: "r = Some d" by (cases r) auto
    with r kv have "snd (promise sv registry (k, v)) = Inr (Some d)" by simp
    moreover from this have "name d = k" by (auto simp: promise_Some_iff)
    ultimately show ?thesis using kv by auto
  qed
qed

lemma outdated_distinct:
  "distinct (map fst cat) \<Longrightarrow> snd (outdated sv registry cat) = Inr deps \<Longrightarrow>
     distinct (map name deps)"
proof (induction cat arbitrary: deps)
  case Nil
  then show ?case by (simp add: outdated_Nil)
next
  case (Cons kv cat)
  obtain k v where kv: "kv = (k, v)" by (cases kv)
  from Cons.prems(2) obtain r deps' where
    r: "snd (promise sv registry kv) = Inr r" and
    deps': "snd (outdated sv registry cat) = Inr deps'" and
    deps: "deps = (case r of None \<Rightarrow> deps' | Some d \<Rightarrow> d # deps')"
    by (auto simp: outdated_Cons split: sum.splits)
  from Cons.prems(1) have dc: "distinct (map fst cat)" and k: "k \<notin> fst ` set cat"
    by (auto simp: kv)
  have IH: "distinct (map name deps')" by (rule Cons.IH[OF dc deps'])
  show ?case
  proof (cases r)
    case None
    with deps IH show ?thesis by simp
  next
    case (Some d)
    with r kv have "name d = k" by (auto simp: promise_Some_iff)
    moreover have "k \<notin> name ` set deps'"
    proof
      assume "k \<in> name ` set deps'"
      then obtain d' where "d' \<in> set deps'" "name d' = k" by auto
      with outdated_mem[OF deps'] obtain v' where "(k, v') \<in> set cat" by blast
      with k show False by force
    qed
    ultimately show ?thesis using deps IH Some by auto
  qed
qed

lemma outdated_current:
  assumes "distinct (map fst cat)" "snd (outdated sv registry cat) = Inr deps" "d \<in> set deps"
  shows "map_of cat (name d) = Some (YStr (current d))"
proof -
  from outdated_mem[OF assms(2,3)] obtain v where
    v: "(name d, v) \<in> set cat" "snd (promise sv registry (name d, v)) = Inr (Some d)" by blast
  from v(2) obtain s l t where
    "v = YStr s" "d = \<lparr>name = name d, current = s, latest = l, type = t\<rparr>"
    unfolding promise_Some_iff by blast
  then have "v = YStr (current d)" by (metis OutdatedInfo.select_convs(2))
  with v(1) assms(1) show ?thesis by simp
qed

section \<open>Facts about the update of the catalog\<close>

lemma write_entry_keys: "map fst (write_entry cat dep) = map fst cat"
  by (auto simp: write_entry_def update_keys split: option.splits dest: map_of_SomeD
      intro: rev_image_eqI)

lemma apply_updates_keys: "map fst (apply_updates cat deps) = map fst cat"
  unfolding apply_updates_def
  by (induction deps arbitrary: cat) (simp_all add: write_entry_keys)

lemma write_entry_other: "k \<noteq> name dep \<Longrightarrow> map_of (write_entry cat dep) k = map_of cat k"
  by (simp add: write_entry_def update_conv' split: option.splits)

lemma apply_updates_other:
  "k \<notin> name ` set deps \<Longrightarrow> map_of (apply_updates cat deps) k = map_of cat k"
  unfolding apply_updates_def
  by (induction deps arbitrary: cat) (simp_all add: write_entry_other)

lemma write_entry_same:
  "map_of cat (name dep) = Some v \<Longrightarrow> truthy v \<Longrightarrow>
     map_of (write_entry cat dep) (name dep) = Some (YStr (new_value dep))"
  by (simp add: write_entry_def update_conv')

lemma apply_updates_same:
  "distinct (map name deps) \<Longrightarrow> dep \<in> set deps \<Longrightarrow> map_of cat (name dep) = Some v \<Longrightarrow>
     truthy v \<Longrightarrow> map_of (apply_updates cat deps) (name dep) = Some (YStr (new_value dep))"
proof (induction deps arbitrary: cat)
  case Nil
  then show ?case by simp
next
  case (Cons d deps)
  have step: "apply_updates cat (d # deps) = apply_updates (write_entry cat d) deps"
    by (simp add: apply_updates_def)
  show ?case
  proof (cases "dep = d")
    case True
    with Cons.prems have "name dep \<notin> name ` set deps" by auto
    then have "map_of (apply_updates (write_entry cat d) deps) (name dep)
                 = map_of (write_entry cat d) (name dep)"
      by (rule apply_updates_other)
    with True Cons.prems show ?thesis by (simp add: step write_entry_same)
  next
    case False
    with Cons.prems have mem: "dep \<in> set deps" by simp
    from Cons.prems(1) have "name d \<notin> name ` set deps" by simp
    with mem have ne: "name dep \<noteq> name d" by (metis imageI)
    from ne Cons.prems have "map_of (write_entry cat d) (name dep) = Some v"
      by (simp add: write_entry_other)
    with Cons.IH[OF _ mem this] Cons.prems show ?thesis by (simp add: step)
  qed
qed

section \<open>Facts about the report\<close>

lemma group_known_step:
  "\<forall>t. Bucket t \<in> fst ` set g \<Longrightarrow>
     group_known g dep =
       map (\<lambda>(k, deps). (k, deps @ filter (\<lambda>d. map_option Bucket (type d) = Some k) [dep])) g"
  by (auto simp: group_known_def push_def map_of_eq_None_iff split: option.splits)

lemma group_known_fold:
  "\<forall>t. Bucket t \<in> fst ` set g \<Longrightarrow>
     foldl group_known g deps =
       map (\<lambda>(k, ds). (k, ds @ filter (\<lambda>d. map_option Bucket (type d) = Some k) deps)) g"
proof (induction deps arbitrary: g)
  case Nil
  then show ?case by simp
next
  case (Cons d deps)
  let ?g = "map (\<lambda>(k, ds). (k, ds @ filter (\<lambda>d. map_option Bucket (type d) = Some k) [d])) g"
  have keys: "fst ` set ?g = fst ` set g" by force
  with Cons.prems have "\<forall>t. Bucket t \<in> fst ` set ?g" by simp
  from Cons.IH[OF this] Cons.prems show ?case
    by (simp add: group_known_step split_def comp_def)
qed

lemma group_other_fold:
  "\<forall>t. Bucket t \<in> fst ` set g \<Longrightarrow> foldl group_other g deps = g"
proof (induction deps)
  case Nil
  then show ?case by simp
next
  case (Cons d deps)
  then have "group_other g d = g"
    by (auto simp: group_other_def map_of_eq_None_iff split: option.splits)
  with Cons show ?case by simp
qed

lemma grouped_init_keys: "\<forall>t. Bucket t \<in> fst ` set grouped_init"
proof
  fix t show "Bucket t \<in> fst ` set grouped_init"
    by (cases t) (simp_all add: grouped_init_def)
qed

lemma group_all_eq:
  "group_all deps =
     map (\<lambda>(k, ds). (k, filter (\<lambda>d. map_option Bucket (type d) = Some k) deps)) grouped_init"
proof -
  let ?sel = "\<lambda>k. filter (\<lambda>d. map_option Bucket (type d) = Some k) deps"
  have "foldl group_known grouped_init deps = map (\<lambda>(k, ds). (k, ds @ ?sel k)) grouped_init"
    by (rule group_known_fold[OF grouped_init_keys])
  also have "\<dots> = map (\<lambda>(k, ds). (k, ?sel k)) grouped_init"
    by (simp add: grouped_init_def)
  finally have first:
    "foldl group_known grouped_init deps = map (\<lambda>(k, ds). (k, ?sel k)) grouped_init" .
  have "\<forall>t. Bucket t \<in> fst ` set (map (\<lambda>(k, ds). (k, ?sel k)) grouped_init)"
    using grouped_init_keys by force
  then show ?thesis
    unfolding group_all_def first by (rule group_other_fold)
qed

lemma bucket_of_group_all:
  "bucket_of (group_all deps) (Bucket t) = filter (\<lambda>d. type d = Some t) deps"
proof -
  have "(\<lambda>d. map_option Bucket (type d) = Some (Bucket t)) = (\<lambda>d. type d = Some t)"
    by (auto simp: fun_eq_iff)
  then show ?thesis
    by (cases t) (simp_all add: group_all_eq grouped_init_def bucket_of_def)
qed


lemma report_group_all:
  "report (group_all deps) =
     ''Outdated dependencies found:''
       # section_lines (header ''31'' ''Major'') (filter (\<lambda>d. type d = Some Major) deps)
       @ section_lines (header ''34'' ''Minor'') (filter (\<lambda>d. type d = Some Minor) deps)
       @ section_lines (header ''32'' ''Patch'') (filter (\<lambda>d. type d = Some Patch) deps)"
  by (simp add: report_def bucket_of_group_all)

section \<open>Evaluating the version library on the examples\<close>

lemmas parse_eval = parse_def main_version_def identifiers_ok_def unprefixed_def
  MAX_LENGTH_def MAX_SAFE_INTEGER_def trim_def is_space_def
  before_def after_def numeric_identifier_def prerelease_identifier_def build_identifier_def
  is_digit_def is_ident_char_def number_of_def digit_value_def

lemmas std_eval = std_def std_gt_def std_prerelease_def std_valid_def std_diff_def
  release_diff_def compare_def compareMain_def comparePre_def compareIdentifiers_def sign_def

lemmas update_eval = updated_doc_def apply_updates_def write_entry_def new_value_def
  startsWith_def toUpdate_def

lemmas outdated_eval = outdated_def promise_all_def outdated_of_def
  example_registry_def getLatestVersion_def cleanVersion_def

lemma parse_examples:
  "parse ''1.0.0'' = Some \<lparr>major = 1, minor = 0, patch = 0, pre = []\<rparr>"
  "parse ''2.0.0'' = Some \<lparr>major = 2, minor = 0, patch = 0, pre = []\<rparr>"
  "parse ''2.0.1'' = Some \<lparr>major = 2, minor = 0, patch = 1, pre = []\<rparr>"
  "parse ''1.2.3'' = Some \<lparr>major = 1, minor = 2, patch = 3, pre = []\<rparr>"
  "parse ''1.3.0'' = Some \<lparr>major = 1, minor = 3, patch = 0, pre = []\<rparr>"
  "parse ''2.0.0-beta.1'' = Some \<lparr>major = 2, minor = 0, patch = 0, pre = [''beta'', ''1'']\<rparr>"
  "parse ''^1.0.0'' = None"
  "parse ''^1.2.3'' = None"
  "parse ''~1.2.3'' = None"
  "parse ''^1.3.0'' = None"
  "parse ''^2.0.0-beta.1'' = None"
  "parse ''2.0.01'' = None"
  "parse ''2.0.0.1'' = None"
  "parse [] = None"
  by (simp_all add: parse_eval)

lemma outdated_foo_bar:
  "outdated std example_registry foo_bar_catalog =
     ([], Inr [\<lparr>name = ''foo'', current = ''^1.0.0'', latest = ''2.0.0'', type = Some Major\<rparr>,
               \<lparr>name = ''bar'', current = ''2.0.0'', latest = ''2.0.1'', type = Some Patch\<rparr>])"
  by (simp add: outdated_eval foo_bar_catalog_def std_eval parse_examples)

lemma outdated_next:
  "outdated std example_registry next_catalog =
     ([], Inr [\<lparr>name = ''next-lib'', current = ''^1.0.0'', latest = ''2.0.0-beta.1'',
                type = Some Premajor\<rparr>])"
  by (simp add: outdated_eval next_catalog_def std_eval parse_examples)

lemma outdated_tilde:
  "outdated std example_registry tilde_catalog =
     ([], Inr [\<lparr>name = ''left-pad'', current = ''~1.2.3'', latest = ''1.3.0'',
                type = Some Minor\<rparr>])"
  by (simp add: outdated_eval tilde_catalog_def std_eval parse_examples)

lemma outdated_caret:
  "outdated std example_registry caret_catalog =
     ([], Inr [\<lparr>name = ''left-pad'', current = ''^1.2.3'', latest = ''1.3.0'', type = Some Minor\<rparr>,
               \<lparr>name = ''is-odd'', current = ''1.2.3'', latest = ''1.3.0'', type = Some Minor\<rparr>])"
  by (simp add: outdated_eval caret_catalog_def std_eval parse_examples)

section \<open>Facts about the run\<close>

lemma written_iff:
  "written (checkDependencies sv f registry (Some doc)) = Some doc' \<longleftrightarrow>
     shouldUpdate f \<and> (\<exists>deps. snd (outdated sv registry (catalog_of doc)) = Inr deps
        \<and> deps \<noteq> [] \<and> doc' = updated_doc doc (toUpdate f deps))"
  by (cases "outdated sv registry (catalog_of doc)")
     (auto simp: checkDependencies_def Let_def split: sum.splits)

lemma written_eq:
  "shouldUpdate f \<Longrightarrow> snd (outdated sv registry (catalog_of doc)) = Inr deps \<Longrightarrow> deps \<noteq> [] \<Longrightarrow>
     written (checkDependencies sv f registry (Some doc)) = Some (updated_doc doc (toUpdate f deps))"
  by (simp add: written_iff)

lemma apply_updates_Nil: "apply_updates [] deps = []"
  unfolding apply_updates_def by (induction deps) (simp_all add: write_entry_def)

lemma catalog_of_updated_doc:
  "catalog_of (updated_doc doc deps) = apply_updates (catalog_of doc) deps"
  by (simp add: catalog_of_def updated_doc_def apply_updates_Nil split: option.splits)


lemma written_foo_bar_patch:
  "written (checkDependencies std update_patch example_registry (Some foo_bar_doc)) =
     Some \<lparr>catalog = Some [(''foo'', YStr ''^1.0.0''), (''bar'', YStr ''2.0.1'')],
           others = packages_field\<rparr>"
proof -
  have "catalog_of foo_bar_doc = foo_bar_catalog"
    by (simp add: catalog_of_def foo_bar_doc_def)
  then have "written (checkDependencies std update_patch example_registry (Some foo_bar_doc)) =
      Some (updated_doc foo_bar_doc (toUpdate update_patch
        [\<lparr>name = ''foo'', current = ''^1.0.0'', latest = ''2.0.0'', type = Some Major\<rparr>,
         \<lparr>name = ''bar'', current = ''2.0.0'', latest = ''2.0.1'', type = Some Patch\<rparr>]))"
    by (intro written_eq) (simp_all add: outdated_foo_bar update_patch_def)
  then show ?thesis
    by (simp add: update_eval update_patch_def foo_bar_doc_def foo_bar_catalog_def)
qed

lemma written_tilde:
  "written (checkDependencies std update_all example_registry (Some tilde_doc)) =
     Some \<lparr>catalog = Some [(''left-pad'', YStr ''1.3.0'')], others = packages_field\<rparr>"
proof -
  have "catalog_of tilde_doc = tilde_catalog"
    by (simp add: catalog_of_def tilde_doc_def)
  then have "written (checkDependencies std update_all example_registry (Some tilde_doc)) =
      Some (updated_doc tilde_doc (toUpdate update_all
        [\<lparr>name = ''left-pad'', current = ''~1.2.3'', latest = ''1.3.0'', type = Some Minor\<rparr>]))"
    by (intro written_eq) (simp_all add: outdated_tilde update_all_def)
  then show ?thesis
    by (simp add: update_eval update_all_def tilde_doc_def tilde_catalog_def)
qed

lemma written_caret:
  "written (checkDependencies std update_all example_registry (Some caret_doc)) =
     Some \<lparr>catalog = Some [(''left-pad'', YStr ''^1.3.0''), (''is-odd'', YStr ''1.3.0'')],
           others = packages_field\<rparr>"
proof -
  have "catalog_of caret_doc = caret_catalog"
    by (simp add: catalog_of_def caret_doc_def)
  then have "written (checkDependencies std update_all example_registry (Some caret_doc)) =
      Some (updated_doc caret_doc (toUpdate update_all
        [\<lparr>name = ''left-pad'', current = ''^1.2.3'', latest = ''1.3.0'', type = Some Minor\<rparr>,
         \<lparr>name = ''is-odd'', current = ''1.2.3'', latest = ''1.3.0'', type = Some Minor\<rparr>]))"
    by (intro written_eq) (simp_all add: outdated_caret update_all_def)
  then show ?thesis
    by (simp add: update_eval update_all_def caret_doc_def caret_catalog_def)
qed

section \<open>The catalog keeps its names\<close>

text \<open>
  C2. For every update run, the updater neither adds nor removes catalog entries: the
  names of the catalog in the document that is written are exactly the names of the
  input catalog, in the same order, so the updater only rewrites values of keys that
  are already present.
\<close>

theorem update_keeps_catalog_names:
  assumes "written (checkDependencies sv f registry (Some doc)) = Some doc'"
  shows "map fst (catalog_of doc') = map fst (catalog_of doc)"
  using assms by (auto simp: written_iff catalog_of_updated_doc apply_updates_keys)

theorem update_keeps_catalog_names_witness:
  "written (checkDependencies std update_patch example_registry (Some foo_bar_doc)) =
     Some \<lparr>catalog = Some [(''foo'', YStr ''^1.0.0''), (''bar'', YStr ''2.0.1'')],
           others = packages_field\<rparr>
   \<and> map fst (catalog_of \<lparr>catalog = Some [(''foo'', YStr ''^1.0.0''), (''bar'', YStr ''2.0.1'')],
           others = packages_field\<rparr>) = map fst (catalog_of foo_bar_doc)"
  using update_keeps_catalog_names [OF written_foo_bar_patch] written_foo_bar_patch by simp

section \<open>The rest of the document\<close>



section \<open>The value written for an entry\<close>

text \<open>
  C3. For every eligible outdated entry still present in the catalog (the test
  \<^verbatim>\<open>if (catalog[name])\<close> succeeds), the update replaces its value with the latest
  version prefixed by \<^verbatim>\<open>^\<close> if the original value started with \<^verbatim>\<open>^\<close>, and with the
  literal latest version otherwise: \<^verbatim>\<open>^1.2.3\<close> with latest \<^verbatim>\<open>1.3.0\<close> becomes
  \<^verbatim>\<open>^1.3.0\<close>, and \<^verbatim>\<open>1.2.3\<close> becomes \<^verbatim>\<open>1.3.0\<close>.
\<close>

theorem update_writes_latest_keeping_caret:
  assumes "distinct (map fst (catalog_of doc))"
    and "shouldUpdate f"
    and "snd (outdated sv registry (catalog_of doc)) = Inr deps"
    and "dep \<in> set (toUpdate f deps)"
    and "map_of (catalog_of doc) (name dep) = Some v" and "truthy v"
  shows "\<exists>doc'. written (checkDependencies sv f registry (Some doc)) = Some doc'
     \<and> map_of (catalog_of doc') (name dep) =
         Some (YStr (if startsWith (current dep) ''^'' then ''^'' @ latest dep else latest dep))"
proof -
  have sub: "set (toUpdate f deps) \<subseteq> set deps"
    by (auto simp: toUpdate_def)
  with assms(4) have "deps \<noteq> []" by auto
  with assms(2,3) have w: "written (checkDependencies sv f registry (Some doc))
      = Some (updated_doc doc (toUpdate f deps))"
    by (rule written_eq)
  have "distinct (map name deps)"
    using assms(1,3) by (rule outdated_distinct)
  then have "distinct (map name (toUpdate f deps))"
    by (simp add: toUpdate_def distinct_map_filter)
  from apply_updates_same[OF this assms(4,5,6)]
  have "map_of (catalog_of (updated_doc doc (toUpdate f deps))) (name dep)
      = Some (YStr (new_value dep))"
    by (simp add: catalog_of_updated_doc)
  with w show ?thesis by (simp add: new_value_def)
qed

theorem update_writes_latest_keeping_caret_witness:
  "map_of (catalog_of (the (written (checkDependencies std update_all example_registry
       (Some caret_doc))))) ''left-pad'' = Some (YStr ''^1.3.0'')
   \<and> map_of (catalog_of (the (written (checkDependencies std update_all example_registry
       (Some caret_doc))))) ''is-odd'' = Some (YStr ''1.3.0'')"
proof -
  let ?a = "\<lparr>name = ''left-pad'', current = ''^1.2.3'', latest = ''1.3.0'', type = Some Minor\<rparr>"
  let ?b = "\<lparr>name = ''is-odd'', current = ''1.2.3'', latest = ''1.3.0'', type = Some Minor\<rparr>"
  have cat: "catalog_of caret_doc = caret_catalog"
    by (simp add: catalog_of_def caret_doc_def)
  have d: "distinct (map fst (catalog_of caret_doc))"
    by (simp add: cat caret_catalog_def)
  have u: "shouldUpdate update_all" by (simp add: update_all_def)
  have out: "snd (outdated std example_registry (catalog_of caret_doc)) = Inr [?a, ?b]"
    by (simp add: cat outdated_caret)
  have ma: "?a \<in> set (toUpdate update_all [?a, ?b])" and mb: "?b \<in> set (toUpdate update_all [?a, ?b])"
    by (simp_all add: toUpdate_def update_all_def)
  have va: "map_of (catalog_of caret_doc) (name ?a) = Some (YStr ''^1.2.3'')"
    and vb: "map_of (catalog_of caret_doc) (name ?b) = Some (YStr ''1.2.3'')"
    by (simp_all add: cat caret_catalog_def)
  from update_writes_latest_keeping_caret [OF d u out ma va]
       update_writes_latest_keeping_caret [OF d u out mb vb]
  show ?thesis by (auto simp: startsWith_def)
qed

text \<open>
  C4, as stated: the prefix convention of the original value, a leading \<^verbatim>\<open>^\<close> but also
  any other prefix such as \<^verbatim>\<open>~\<close>, is preserved in the written value. The run below
  reads \<^verbatim>\<open>~1.2.3\<close> and writes \<^verbatim>\<open>1.3.0\<close>: the tilde is gone.
\<close>

theorem tilde_prefix_is_dropped:
  "map_of (catalog_of tilde_doc) ''left-pad'' = Some (YStr ''~1.2.3'')
   \<and> written (checkDependencies std update_all example_registry (Some tilde_doc)) =
       Some \<lparr>catalog = Some [(''left-pad'', YStr ''1.3.0'')], others = packages_field\<rparr>"
  using written_tilde by (simp add: catalog_of_def tilde_doc_def tilde_catalog_def)

text \<open>
  C4, amended: for every catalog entry that the updater rewrites, a leading \<^verbatim>\<open>^\<close> of
  the original value is the only prefix carried over. The written value is \<^verbatim>\<open>^\<close>
  followed by the latest version when the original value started with \<^verbatim>\<open>^\<close>, and
  the bare latest version for every other original value, whatever its prefix.
\<close>

theorem only_caret_prefix_is_kept:
  assumes "map_of cat (name dep) = Some v" and "truthy v"
  shows "(startsWith (current dep) ''^'' \<longrightarrow>
            map_of (write_entry cat dep) (name dep) = Some (YStr (''^'' @ latest dep)))
       \<and> (\<not> startsWith (current dep) ''^'' \<longrightarrow>
            map_of (write_entry cat dep) (name dep) = Some (YStr (latest dep)))"
  using write_entry_same[OF assms] by (simp add: new_value_def)

theorem only_caret_prefix_is_kept_witness:
  "map_of (write_entry tilde_catalog
      \<lparr>name = ''left-pad'', current = ''~1.2.3'', latest = ''1.3.0'', type = Some Minor\<rparr>)
      ''left-pad'' = Some (YStr ''1.3.0'')
   \<and> map_of (write_entry caret_catalog
      \<lparr>name = ''left-pad'', current = ''^1.2.3'', latest = ''1.3.0'', type = Some Minor\<rparr>)
      ''left-pad'' = Some (YStr ''^1.3.0'')"
proof -
  let ?t = "\<lparr>name = ''left-pad'', current = ''~1.2.3'', latest = ''1.3.0'', type = Some Minor\<rparr>"
  let ?c = "\<lparr>name = ''left-pad'', current = ''^1.2.3'', latest = ''1.3.0'', type = Some Minor\<rparr>"
  have t: "map_of tilde_catalog (name ?t) = Some (YStr ''~1.2.3'')"
    by (simp add: tilde_catalog_def)
  have c: "map_of caret_catalog (name ?c) = Some (YStr ''^1.2.3'')"
    by (simp add: caret_catalog_def)
  from only_caret_prefix_is_kept [OF t] only_caret_prefix_is_kept [OF c]
  show ?thesis by (simp add: startsWith_def)
qed

section \<open>A catalog value that is not a string\<close>

text \<open>
  C5 says that an entry whose current value is not a string is excluded from the
  outdated set. For a YAML number, as in \<^verbatim>\<open>typescript: 5\<close>, the code calls
  \<^verbatim>\<open>version.replace\<close> before it reaches its own \<^verbatim>\<open>typeof version !== 'string'\<close>
  test: the call throws, \<^verbatim>\<open>Promise.all\<close> rejects, and the run ends in the
  \<^verbatim>\<open>catch\<close> without an outdated set, a report or a write, whatever the library and
  the registry do.
\<close>

theorem number_version_aborts_run:
  "snd (promise sv registry (''typescript'', YNum 5)) = Inl TypeError
   \<and> snd (outdated sv registry number_catalog) = Inl TypeError
   \<and> written (checkDependencies sv f registry (Some number_doc)) = None"
proof -
  have "\<exists>e. snd (outdated sv registry number_catalog) = Inl e"
    by (cases "snd (promise sv registry (''left-pad'', YStr ''^1.2.3''))")
       (simp_all add: number_catalog_def outdated_Cons outdated_Nil)
  then obtain e where "snd (outdated sv registry number_catalog) = Inl e" ..
  then have o: "snd (outdated sv registry number_catalog) = Inl TypeError"
    by (cases e) simp
  moreover have "catalog_of number_doc = number_catalog"
    by (simp add: catalog_of_def number_doc_def)
  ultimately have "written (checkDependencies sv f registry (Some number_doc)) = None"
    by (cases "outdated sv registry number_catalog")
       (auto simp: checkDependencies_def Let_def)
  with o show ?thesis by simp
qed

section \<open>What the report prints\<close>





section \<open>The release-type filters\<close>

text \<open>
  C6. In an update run with one or more of \<^verbatim>\<open>--major\<close>, \<^verbatim>\<open>--minor\<close>, \<^verbatim>\<open>--patch\<close>,
  exactly the outdated entries whose delta type equals a requested filter are
  updated: each of them gets the latest version in the written document (with the
  \<^verbatim>\<open>^\<close> of its current value, which is not empty, so that
  \<^verbatim>\<open>if (catalog[name])\<close> succeeds), and every other outdated entry keeps its original
  catalog value (with only \<^verbatim>\<open>--minor\<close>, every major and every patch entry). An
  entry classified \<^verbatim>\<open>premajor\<close>, \<^verbatim>\<open>preminor\<close>, \<^verbatim>\<open>prepatch\<close> or \<^verbatim>\<open>prerelease\<close>
  keeps its value under every combination of the three filters. With no filter, all
  outdated entries are eligible, and each of them is written.
\<close>

theorem filters_select_exact_types:
  assumes "distinct (map fst (catalog_of doc))"
    and "shouldUpdate f"
    and "snd (outdated sv registry (catalog_of doc)) = Inr deps"
    and "deps \<noteq> []"
  shows "\<exists>doc'. written (checkDependencies sv f registry (Some doc)) = Some doc'
     \<and> (updatePatch f \<or> updateMinor f \<or> updateMajor f \<longrightarrow>
          toUpdate f deps =
            filter (\<lambda>dep. (updatePatch f \<and> type dep = Some Patch)
                          \<or> (updateMinor f \<and> type dep = Some Minor)
                          \<or> (updateMajor f \<and> type dep = Some Major)) deps
          \<and> (\<forall>dep \<in> set deps.
             (updatePatch f \<and> type dep = Some Patch)
                \<or> (updateMinor f \<and> type dep = Some Minor)
                \<or> (updateMajor f \<and> type dep = Some Major) \<longrightarrow>
             current dep \<noteq> [] \<longrightarrow>
             map_of (catalog_of doc') (name dep) =
               Some (YStr (if startsWith (current dep) ''^'' then ''^'' @ latest dep
                           else latest dep)))
          \<and> (\<forall>dep \<in> set deps.
             \<not> ((updatePatch f \<and> type dep = Some Patch)
                \<or> (updateMinor f \<and> type dep = Some Minor)
                \<or> (updateMajor f \<and> type dep = Some Major)) \<longrightarrow>
             map_of (catalog_of doc') (name dep) = Some (YStr (current dep)))
          \<and> (\<forall>dep \<in> set deps.
               type dep \<in> {Some Premajor, Some Preminor, Some Prepatch, Some Prerelease} \<longrightarrow>
               map_of (catalog_of doc') (name dep) = Some (YStr (current dep))))
     \<and> (\<not> (updatePatch f \<or> updateMinor f \<or> updateMajor f) \<longrightarrow>
          toUpdate f deps = deps
          \<and> (\<forall>dep \<in> set deps. current dep \<noteq> [] \<longrightarrow>
                map_of (catalog_of doc') (name dep) =
                  Some (YStr (if startsWith (current dep) ''^'' then ''^'' @ latest dep
                              else latest dep))))"
proof -
  let ?req = "\<lambda>dep. (updatePatch f \<and> type dep = Some Patch)
                \<or> (updateMinor f \<and> type dep = Some Minor)
                \<or> (updateMajor f \<and> type dep = Some Major)"
  let ?on = "updatePatch f \<or> updateMinor f \<or> updateMajor f"
  let ?doc' = "updated_doc doc (toUpdate f deps)"
  have w: "written (checkDependencies sv f registry (Some doc)) = Some ?doc'"
    using assms(2,3,4) by (rule written_eq)
  have dn: "distinct (map name deps)"
    using assms(1,3) by (rule outdated_distinct)
  have dsel: "distinct (map name (toUpdate f deps))"
    using dn by (simp add: toUpdate_def distinct_map_filter)
  have off: "toUpdate f deps = deps" if "\<not> ?on"
    using that by (simp add: toUpdate_def)
  have sel: "dep \<in> set (toUpdate f deps)" if "dep \<in> set deps" "?on \<longrightarrow> ?req dep" for dep
    using that by (auto simp: toUpdate_def)
  have put: "map_of (catalog_of ?doc') (name dep) =
      Some (YStr (if startsWith (current dep) ''^'' then ''^'' @ latest dep else latest dep))"
    if mem: "dep \<in> set deps" and pick: "?on \<longrightarrow> ?req dep" and ne: "current dep \<noteq> []" for dep
  proof -
    have "map_of (catalog_of doc) (name dep) = Some (YStr (current dep))"
      using assms(1,3) mem by (rule outdated_current)
    moreover have "truthy (YStr (current dep))" using ne by simp
    ultimately have "map_of (apply_updates (catalog_of doc) (toUpdate f deps)) (name dep)
        = Some (YStr (new_value dep))"
      by (rule apply_updates_same[OF dsel sel[OF mem pick]])
    then show ?thesis by (simp add: catalog_of_updated_doc new_value_def)
  qed
  have keep: "map_of (catalog_of ?doc') (name dep) = Some (YStr (current dep))"
    if on: "?on" and mem: "dep \<in> set deps" and nreq: "\<not> ?req dep" for dep
  proof -
    have "name dep \<notin> name ` set (toUpdate f deps)"
    proof
      assume "name dep \<in> name ` set (toUpdate f deps)"
      then obtain d where d: "d \<in> set deps" "?req d" "name d = name dep"
        using on by (auto simp: toUpdate_def)
      with dn mem have "d = dep" by (auto simp: distinct_map inj_on_def)
      with d(2) nreq show False by simp
    qed
    then have "map_of (catalog_of ?doc') (name dep) = map_of (catalog_of doc) (name dep)"
      by (simp add: catalog_of_updated_doc apply_updates_other)
    with outdated_current[OF assms(1,3) mem] show ?thesis by simp
  qed
  have c1: "\<forall>dep \<in> set deps. ?req dep \<longrightarrow> current dep \<noteq> [] \<longrightarrow>
      map_of (catalog_of ?doc') (name dep) =
        Some (YStr (if startsWith (current dep) ''^'' then ''^'' @ latest dep else latest dep))"
    using put by blast
  have c2: "\<forall>dep \<in> set deps. \<not> ?req dep \<longrightarrow>
      map_of (catalog_of ?doc') (name dep) = Some (YStr (current dep))" if "?on"
    using keep[OF that] by blast
  have c3: "\<forall>dep \<in> set deps.
      type dep \<in> {Some Premajor, Some Preminor, Some Prepatch, Some Prerelease} \<longrightarrow>
      map_of (catalog_of ?doc') (name dep) = Some (YStr (current dep))" if "?on"
  proof (intro ballI impI)
    fix dep assume "dep \<in> set deps"
      and "type dep \<in> {Some Premajor, Some Preminor, Some Prepatch, Some Prerelease}"
    moreover from this(2) have "\<not> ?req dep" by auto
    ultimately show "map_of (catalog_of ?doc') (name dep) = Some (YStr (current dep))"
      using keep[OF that] by blast
  qed
  have c4: "\<forall>dep \<in> set deps. current dep \<noteq> [] \<longrightarrow>
      map_of (catalog_of ?doc') (name dep) =
        Some (YStr (if startsWith (current dep) ''^'' then ''^'' @ latest dep else latest dep))"
    if "\<not> ?on"
    using put that by blast
  have c0: "toUpdate f deps = filter ?req deps" if "?on"
    using that by (simp add: toUpdate_def)
  show ?thesis
    apply (rule exI[of _ ?doc'])
    using w c0 c1 c2 c3 c4 off by blast
qed

theorem filters_select_exact_types_witness:
  "map_of (catalog_of (the (written (checkDependencies std update_patch example_registry
       (Some foo_bar_doc))))) ''foo'' = Some (YStr ''^1.0.0'')
   \<and> map_of (catalog_of (the (written (checkDependencies std update_patch example_registry
       (Some foo_bar_doc))))) ''bar'' = Some (YStr ''2.0.1'')"
proof -
  let ?a = "\<lparr>name = ''foo'', current = ''^1.0.0'', latest = ''2.0.0'', type = Some Major\<rparr>"
  let ?b = "\<lparr>name = ''bar'', current = ''2.0.0'', latest = ''2.0.1'', type = Some Patch\<rparr>"
  have cat: "catalog_of foo_bar_doc = foo_bar_catalog"
    by (simp add: catalog_of_def foo_bar_doc_def)
  have d: "distinct (map fst (catalog_of foo_bar_doc))"
    by (simp add: cat foo_bar_catalog_def)
  have u: "shouldUpdate update_patch" by (simp add: update_patch_def)
  have out: "snd (outdated std example_registry (catalog_of foo_bar_doc)) = Inr [?a, ?b]"
    by (simp add: cat outdated_foo_bar)
  have ne: "[?a, ?b] \<noteq> []" by simp
  from filters_select_exact_types [OF d u out ne]
  show ?thesis by (auto simp: update_patch_def startsWith_def)
qed

section \<open>A registry lookup that fails\<close>

lemma promise_name: "snd (promise sv registry (k, v)) = Inr (Some d) \<Longrightarrow> name d = k"
  by (auto simp: promise_Some_iff)

lemma promise_other_name:
  "k \<noteq> n \<Longrightarrow> promise sv (registry(n := r)) (k, v) = promise sv registry (k, v)"
  by (cases v) (simp_all add: getLatestVersion_def)

lemma promise_failed_lookup:
  assumes "registry n = Rejected \<or> (\<exists>s. registry n = NotOk s)"
    and "snd (promise sv (registry(n := r)) (n, v)) = Inr x"
  shows "snd (promise sv registry (n, v)) = Inr None"
  using assms by (cases v) (auto simp: getLatestVersion_def)

lemma outdated_gone_found:
  "snd (outdated std (example_registry(''gone'' := Json ''2.0.0'')) gone_catalog) =
     Inr [\<lparr>name = ''gone'', current = ''1.0.0'', latest = ''2.0.0'', type = Some Major\<rparr>,
          \<lparr>name = ''bar'', current = ''2.0.0'', latest = ''2.0.1'', type = Some Patch\<rparr>]"
  by (simp add: outdated_eval gone_catalog_def std_eval parse_examples)

text \<open>
  C7. For every dependency whose registry lookup fails (a response that is not ok, or
  an exception while fetching or decoding), \<^verbatim>\<open>getLatestVersion\<close> catches the failure,
  logs one line and yields \<^verbatim>\<open>null\<close>. The failure does not abort the run and does not
  touch the other dependencies: whenever the run would have produced an outdated set
  had that lookup answered anything else, the run with the failed lookup produces
  the same outdated set without the entry of that dependency.
\<close>

theorem failed_lookup_is_local:
  assumes "registry n = Rejected \<or> (\<exists>s. registry n = NotOk s)"
  shows "(\<exists>line. getLatestVersion registry n = ([line], None))
     \<and> (\<forall>r deps'. snd (outdated sv (registry(n := r)) cat) = Inr deps' \<longrightarrow>
           snd (outdated sv registry cat) = Inr (filter (\<lambda>d. name d \<noteq> n) deps'))"
proof -
  have log: "\<exists>line. getLatestVersion registry n = ([line], None)"
    using assms by (auto simp: getLatestVersion_def)
  have rest: "snd (outdated sv registry cat) = Inr (filter (\<lambda>d. name d \<noteq> n) deps')"
    if "snd (outdated sv (registry(n := r)) cat) = Inr deps'" for r deps'
  proof -
    define other where "other = registry(n := r)"
    have other_name: "promise sv other (k, v) = promise sv registry (k, v)" if "k \<noteq> n" for k v
      using that by (simp add: other_def promise_other_name)
    have other_failed: "snd (promise sv registry (n, v)) = Inr None"
      if "snd (promise sv other (n, v)) = Inr x" for v x
      using that promise_failed_lookup[of registry n, OF assms] by (simp add: other_def)
    have "snd (outdated sv other cat) = Inr deps'"
      using that by (simp add: other_def)
    then show ?thesis
  proof (induction cat arbitrary: deps')
    case Nil
    then show ?case by (simp add: outdated_Nil)
  next
    case (Cons kv cat)
    obtain k v where kv: "kv = (k, v)" by (cases kv)
    from Cons.prems obtain x ds where
      x: "snd (promise sv other (k, v)) = Inr x" and
      ds: "snd (outdated sv other cat) = Inr ds" and
      deps': "deps' = (case x of None \<Rightarrow> ds | Some d \<Rightarrow> d # ds)"
      by (auto simp: outdated_Cons kv split: sum.splits)
    note IH = Cons.IH[OF ds]
    show ?case
    proof (cases "k = n")
      case True
      with x have here: "snd (promise sv registry (k, v)) = Inr None"
        using other_failed by simp
      have "filter (\<lambda>d. name d \<noteq> n) deps' = filter (\<lambda>d. name d \<noteq> n) ds"
      proof (cases x)
        case None
        with deps' show ?thesis by simp
      next
        case (Some d)
        with x have "name d = k" by (simp add: promise_name)
        with Some deps' True show ?thesis by simp
      qed
      with here IH show ?thesis by (simp add: outdated_Cons kv)
    next
      case False
      then have same: "snd (promise sv registry (k, v)) = Inr x"
        using x by (simp add: other_name)
      have "filter (\<lambda>d. name d \<noteq> n) deps'
          = (case x of None \<Rightarrow> filter (\<lambda>d. name d \<noteq> n) ds
             | Some d \<Rightarrow> d # filter (\<lambda>d. name d \<noteq> n) ds)"
      proof (cases x)
        case None
        with deps' show ?thesis by simp
      next
        case (Some d)
        with same have "name d = k" by (simp add: promise_name)
        with Some deps' False show ?thesis by simp
      qed
      with same IH show ?thesis by (simp add: outdated_Cons kv)
    qed
  qed
  qed
  from log rest show ?thesis by blast
qed

theorem failed_lookup_is_local_witness:
  "getLatestVersion example_registry ''gone'' =
     ([''Failed to fetch version for gone: Not Found''], None)
   \<and> snd (outdated std example_registry gone_catalog) =
       Inr [\<lparr>name = ''bar'', current = ''2.0.0'', latest = ''2.0.1'', type = Some Patch\<rparr>]"
proof -
  have f: "example_registry ''gone'' = Rejected \<or> (\<exists>s. example_registry ''gone'' = NotOk s)"
    by (simp add: example_registry_def)
  from failed_lookup_is_local [of example_registry "''gone''" std gone_catalog, OF f]
    outdated_gone_found
  have "snd (outdated std example_registry gone_catalog) =
      Inr (filter (\<lambda>d. name d \<noteq> ''gone'')
        [\<lparr>name = ''gone'', current = ''1.0.0'', latest = ''2.0.0'', type = Some Major\<rparr>,
         \<lparr>name = ''bar'', current = ''2.0.0'', latest = ''2.0.1'', type = Some Patch\<rparr>])"
    by blast
  then show ?thesis
    by (simp add: getLatestVersion_def example_registry_def)
qed

section \<open>An update without filters\<close>

lemma report_without_unprinted:
  assumes "type dep \<notin> {Some Major, Some Minor, Some Patch}"
  shows "report (group_all (removeAll dep deps)) = report (group_all deps)"
proof -
  have "filter (\<lambda>d. type d = Some t) (removeAll dep deps) = filter (\<lambda>d. type d = Some t) deps"
    if "t \<in> {Major, Minor, Patch}" for t
    using that assms by (induction deps) auto
  then show ?thesis by (simp add: report_group_all)
qed

lemma outdated_current_nonempty:
  assumes "\<not> valid sv []" and "snd (outdated sv registry cat) = Inr deps" and "d \<in> set deps"
  shows "current d \<noteq> []"
proof
  assume e: "current d = []"
  from outdated_mem[OF assms(2,3)] obtain v where
    "snd (promise sv registry (name d, v)) = Inr (Some d)" by blast
  then obtain s l t where "valid sv (cleanVersion s)"
    "d = \<lparr>name = name d, current = s, latest = l, type = t\<rparr>"
    unfolding promise_Some_iff by blast
  then have "valid sv (cleanVersion (current d))"
    by (metis OutdatedInfo.select_convs(2))
  with e assms(1) show False by (simp add: cleanVersion_def)
qed

lemma toUpdate_no_filter:
  "\<not> updatePatch f \<Longrightarrow> \<not> updateMinor f \<Longrightarrow> \<not> updateMajor f \<Longrightarrow> toUpdate f deps = deps"
  by (simp add: toUpdate_def)

lemma written_next:
  "written (checkDependencies std update_all example_registry (Some next_doc)) =
     Some \<lparr>catalog = Some [(''next-lib'', YStr ''^2.0.0-beta.1'')], others = packages_field\<rparr>"
proof -
  have "catalog_of next_doc = next_catalog"
    by (simp add: catalog_of_def next_doc_def)
  then have "written (checkDependencies std update_all example_registry (Some next_doc)) =
      Some (updated_doc next_doc (toUpdate update_all
        [\<lparr>name = ''next-lib'', current = ''^1.0.0'', latest = ''2.0.0-beta.1'',
          type = Some Premajor\<rparr>]))"
    by (intro written_eq) (simp_all add: outdated_next update_all_def)
  then show ?thesis
    by (simp add: update_eval update_all_def next_doc_def next_catalog_def)
qed

text \<open>
  C10. When \<^verbatim>\<open>--update\<close> is passed with none of \<^verbatim>\<open>--major\<close>, \<^verbatim>\<open>--minor\<close>,
  \<^verbatim>\<open>--patch\<close>, every outdated entry is written into the manifest, the entries of type
  \<^verbatim>\<open>premajor\<close>, \<^verbatim>\<open>preminor\<close>, \<^verbatim>\<open>prepatch\<close> and \<^verbatim>\<open>prerelease\<close> included, although
  the report is the same as if those entries were not outdated at all. (The library is
  assumed not to take the empty string for a version, so that the current value of an
  outdated entry is truthy.) In the example the report consists of its title only,
  and the manifest changes.
\<close>

theorem unfiltered_update_writes_unreported_entries:
  assumes "distinct (map fst (catalog_of doc))"
    and "\<not> valid sv []"
    and "shouldUpdate f" and "\<not> updatePatch f" and "\<not> updateMinor f" and "\<not> updateMajor f"
    and "snd (outdated sv registry (catalog_of doc)) = Inr deps"
    and "deps \<noteq> []"
  shows "\<exists>doc'. written (checkDependencies sv f registry (Some doc)) = Some doc'
     \<and> (\<forall>dep \<in> set deps. map_of (catalog_of doc') (name dep) = Some (YStr (new_value dep)))
     \<and> (\<forall>dep \<in> set deps.
           type dep \<in> {Some Premajor, Some Preminor, Some Prepatch, Some Prerelease} \<longrightarrow>
           report (group_all (removeAll dep deps)) = report (group_all deps))"
proof -
  have all: "toUpdate f deps = deps"
    using assms(4,5,6) by (rule toUpdate_no_filter)
  have w: "written (checkDependencies sv f registry (Some doc)) = Some (updated_doc doc deps)"
    using written_eq[OF assms(3,7,8)] by (simp add: all)
  have dn: "distinct (map name deps)"
    using assms(1,7) by (rule outdated_distinct)
  have "map_of (catalog_of (updated_doc doc deps)) (name dep) = Some (YStr (new_value dep))"
    if mem: "dep \<in> set deps" for dep
  proof -
    have "map_of (catalog_of doc) (name dep) = Some (YStr (current dep))"
      using assms(1,7) mem by (rule outdated_current)
    moreover have "truthy (YStr (current dep))"
      using outdated_current_nonempty[OF assms(2,7) mem] by simp
    ultimately show ?thesis
      using apply_updates_same[OF dn mem] by (simp add: catalog_of_updated_doc)
  qed
  moreover have "report (group_all (removeAll dep deps)) = report (group_all deps)"
    if "type dep \<in> {Some Premajor, Some Preminor, Some Prepatch, Some Prerelease}" for dep
    using that by (intro report_without_unprinted) auto
  ultimately show ?thesis using w by simp
qed

theorem unfiltered_update_writes_unreported_entries_witness:
  "written (checkDependencies std update_all example_registry (Some next_doc)) =
     Some \<lparr>catalog = Some [(''next-lib'', YStr ''^2.0.0-beta.1'')], others = packages_field\<rparr>
   \<and> report (group_all [\<lparr>name = ''next-lib'', current = ''^1.0.0'', latest = ''2.0.0-beta.1'',
                          type = Some Premajor\<rparr>]) = [''Outdated dependencies found:'']"
proof -
  let ?d = "\<lparr>name = ''next-lib'', current = ''^1.0.0'', latest = ''2.0.0-beta.1'',
             type = Some Premajor\<rparr>"
  have cat: "catalog_of next_doc = next_catalog"
    by (simp add: catalog_of_def next_doc_def)
  have d: "distinct (map fst (catalog_of next_doc))"
    by (simp add: cat next_catalog_def)
  have v: "\<not> valid std []" by (simp add: std_def std_valid_def parse_examples)
  have u: "shouldUpdate update_all" "\<not> updatePatch update_all" "\<not> updateMinor update_all"
    "\<not> updateMajor update_all" by (simp_all add: update_all_def)
  have out: "snd (outdated std example_registry (catalog_of next_doc)) = Inr [?d]"
    by (simp add: cat outdated_next)
  have ne: "[?d] \<noteq> []" by simp
  from unfiltered_update_writes_unreported_entries [OF d v u out ne]
  have "report (group_all (removeAll ?d [?d])) = report (group_all [?d])" by auto
  then have "report (group_all [?d]) = report (group_all [])" by simp
  also have "\<dots> = [''Outdated dependencies found:'']"
    by (simp add: report_group_all section_lines_def)
  finally show ?thesis using written_next by simp
qed

section \<open>The model library and normalization\<close>

text \<open>
  A version that the model library parses starts, after its optional \<^verbatim>\<open>v\<close>, with
  three numbers separated by dots. Normalization keeps these and appends the digits
  and dots of what follows; when the result is again a version, nothing but digits
  was appended, to the patch number. So the normalization is never below the
  version it comes from.
\<close>

lemma cleanVersion_filter: "cleanVersion x = filter is_plain x"
  unfolding cleanVersion_def is_plain_def[abs_def] by (rule refl)

lemma not_plain: "\<not> is_plain CHR ''+''" "\<not> is_plain CHR ''-''" "\<not> is_plain CHR ''v''"
  by (simp_all add: is_plain_def)

lemma dot_plain: "is_plain CHR ''.''"
  by (simp add: is_plain_def)

lemma digit_plain: "is_digit c \<Longrightarrow> is_plain c"
  by (auto simp: is_plain_def is_digit_def)

lemma digit_not_dot: "is_digit c \<Longrightarrow> c \<noteq> CHR ''.''"
  by (auto simp: is_digit_def)

lemma space_not_plain: "is_space c \<Longrightarrow> \<not> is_plain c"
  by (auto simp: is_space_def is_plain_def)

lemma cleanVersion_append: "cleanVersion (xs @ ys) = cleanVersion xs @ cleanVersion ys"
  by (simp add: cleanVersion_filter)

lemma cleanVersion_plain: "list_all is_plain x \<Longrightarrow> cleanVersion x = x"
  by (simp add: cleanVersion_filter list_all_iff)

lemma plain_cleanVersion: "list_all is_plain (cleanVersion x)"
  by (simp add: cleanVersion_filter list_all_iff)

lemma cleanVersion_dropWhile:
  "(\<And>c. P c \<Longrightarrow> \<not> is_plain c) \<Longrightarrow> cleanVersion (dropWhile P s) = cleanVersion s"
  by (induction s) (auto simp: cleanVersion_filter)

lemma cleanVersion_rev: "cleanVersion (rev s) = rev (cleanVersion s)"
  by (simp add: cleanVersion_filter rev_filter)

lemma cleanVersion_trim: "cleanVersion (trim s) = cleanVersion s"
proof -
  have drop: "cleanVersion (dropWhile is_space t) = cleanVersion t" for t
    by (rule cleanVersion_dropWhile) (rule space_not_plain)
  have "cleanVersion (trim s) = rev (cleanVersion (dropWhile is_space (rev (dropWhile is_space s))))"
    by (simp only: trim_def cleanVersion_rev)
  also have "\<dots> = rev (cleanVersion (rev (dropWhile is_space s)))"
    by (simp only: drop)
  also have "\<dots> = cleanVersion (dropWhile is_space s)"
    by (simp only: cleanVersion_rev rev_rev_ident)
  also have "\<dots> = cleanVersion s"
    by (rule drop)
  finally show ?thesis .
qed

lemma cleanVersion_unprefixed: "cleanVersion (unprefixed s) = cleanVersion s"
proof -
  have "cleanVersion (unprefixed s) = cleanVersion (trim s)"
    by (cases "trim s") (simp_all add: unprefixed_def cleanVersion_filter not_plain)
  then show ?thesis by (simp add: cleanVersion_trim)
qed

lemma split_on_nonempty: "split_on c s \<noteq> []"
  by (induction s) (auto split: list.splits)

lemma split_on_join: "concat (map (\<lambda>w. c # w) (split_on c s)) = c # s"
proof (induction s)
  case Nil
  then show ?case by simp
next
  case (Cons x xs)
  then show ?case
    using split_on_nonempty[of c xs] by (auto split: list.splits)
qed

lemma split_on_three: "split_on c s = [a, b, d] \<Longrightarrow> s = a @ c # b @ c # d"
  using split_on_join[of c s] by simp

lemma split_on_length: "length (split_on c s) = Suc (length (filter (\<lambda>x. x = c) s))"
proof (induction s)
  case Nil
  then show ?case by simp
next
  case (Cons x xs)
  then show ?case
    using split_on_nonempty[of c xs] by (auto split: list.splits)
qed

lemma split_on_free: "c \<notin> set e \<Longrightarrow> split_on c e = [e]"
  by (induction e) auto

lemma split_on_append_free:
  "c \<notin> set e \<Longrightarrow>
     split_on c (xs @ e) = butlast (split_on c xs) @ [last (split_on c xs) @ e]"
proof (induction xs)
  case Nil
  then show ?case by (simp add: split_on_free)
next
  case (Cons x xs)
  then show ?case
    using split_on_nonempty[of c xs] by (auto split: list.splits)
qed

lemma split_on_sep: "c \<notin> set a \<Longrightarrow> split_on c (a @ c # s) = a # split_on c s"
  by (induction a) auto

lemma foldl_digits_ge: "n \<le> foldl (\<lambda>n c. 10 * n + digit_value c) n ys"
proof (induction ys arbitrary: n)
  case Nil
  then show ?case by simp
next
  case (Cons y ys)
  have "n \<le> 10 * n + digit_value y" by simp
  also have "\<dots> \<le> foldl (\<lambda>n c. 10 * n + digit_value c) (10 * n + digit_value y) ys"
    by (rule Cons.IH)
  finally show ?case by simp
qed

lemma number_of_append_ge: "number_of xs \<le> number_of (xs @ ys)"
  by (simp add: number_of_def foldl_digits_ge)

lemma dropWhile_none: "(\<And>c. c \<in> set x \<Longrightarrow> \<not> P c) \<Longrightarrow> dropWhile P x = x"
  by (cases x) auto

lemma trim_plain:
  assumes "list_all is_plain x"
  shows "trim x = x"
proof -
  have ns: "\<not> is_space c" if "c \<in> set x" for c
    using that assms space_not_plain by (auto simp: list_all_iff)
  then have "dropWhile is_space x = x" by (rule dropWhile_none)
  moreover have "dropWhile is_space (rev x) = rev x"
    by (rule dropWhile_none) (simp add: ns)
  ultimately show ?thesis by (simp add: trim_def)
qed

lemma unprefixed_plain:
  assumes "list_all is_plain x"
  shows "unprefixed x = x"
proof (cases x)
  case Nil
  then show ?thesis by (simp add: unprefixed_def trim_def)
next
  case (Cons c cs)
  with assms have "c \<noteq> CHR ''v''" using not_plain(3) by auto
  with Cons trim_plain[OF assms] show ?thesis by (simp add: unprefixed_def)
qed

lemma main_version_SomeD:
  "main_version ids = Some (a, b, d) \<Longrightarrow>
     \<exists>ma mi pa. ids = [ma, mi, pa] \<and> list_all is_digit ma \<and> list_all is_digit mi
       \<and> list_all is_digit pa \<and> a = number_of ma \<and> b = number_of mi \<and> d = number_of pa"
  by (auto simp: main_version_def numeric_identifier_def split: list.splits if_splits)

lemma parse_plain:
  assumes "list_all is_plain x" and "parse x = Some w"
  shows "\<exists>ma mi pa. split_on CHR ''.'' x = [ma, mi, pa]
     \<and> w = \<lparr>major = number_of ma, minor = number_of mi, patch = number_of pa, pre = []\<rparr>"
proof -
  have plus: "\<forall>c \<in> set x. c \<noteq> CHR ''+''" and minus: "\<forall>c \<in> set x. c \<noteq> CHR ''-''"
    using assms(1) not_plain by (auto simp: list_all_iff)
  have b1: "before CHR ''+'' x = x"
    unfolding before_def using plus by (simp add: takeWhile_eq_all_conv)
  have b2: "before CHR ''-'' x = x"
    unfolding before_def using minus by (simp add: takeWhile_eq_all_conv)
  have d1: "dropWhile (\<lambda>c. c \<noteq> CHR ''+'') x = []"
    using plus by (simp add: dropWhile_eq_Nil_conv)
  have a1: "after CHR ''+'' x = None"
    by (simp only: after_def d1 list.case)
  have d2: "dropWhile (\<lambda>c. c \<noteq> CHR ''-'') x = []"
    using minus by (simp add: dropWhile_eq_Nil_conv)
  have a2: "after CHR ''-'' x = None"
    by (simp only: after_def d2 list.case)
  from assms(2) obtain a b d where
    "main_version (split_on CHR ''.'' x) = Some (a, b, d)"
    "w = \<lparr>major = a, minor = b, patch = d, pre = []\<rparr>"
    by (auto simp: parse_def unprefixed_plain[OF assms(1)] b1 b2 a1 a2 Let_def
        split: if_splits option.splits)
  with main_version_SomeD[OF this(1)] show ?thesis by auto
qed

lemma core_prefix: "\<exists>rest. body = before c (before d body) @ rest"
proof -
  have "body = takeWhile (\<lambda>x. x \<noteq> d) body @ dropWhile (\<lambda>x. x \<noteq> d) body" by simp
  moreover have "takeWhile (\<lambda>x. x \<noteq> d) body
      = takeWhile (\<lambda>x. x \<noteq> c) (takeWhile (\<lambda>x. x \<noteq> d) body)
        @ dropWhile (\<lambda>x. x \<noteq> c) (takeWhile (\<lambda>x. x \<noteq> d) body)" by simp
  ultimately show ?thesis
    unfolding before_def by (metis append.assoc)
qed

lemma parse_core:
  assumes "parse l = Some v"
  shows "\<exists>ma mi pa rest. unprefixed l = (ma @ CHR ''.'' # mi @ CHR ''.'' # pa) @ rest
     \<and> list_all is_digit ma \<and> list_all is_digit mi \<and> list_all is_digit pa
     \<and> major v = number_of ma \<and> minor v = number_of mi \<and> patch v = number_of pa"
proof -
  let ?core = "before CHR ''-'' (before CHR ''+'' (unprefixed l))"
  from assms obtain a b d where
    mv: "main_version (split_on CHR ''.'' ?core) = Some (a, b, d)" and
    v: "major v = a" "minor v = b" "patch v = d"
    by (auto simp: parse_def Let_def split: if_splits option.splits)
  from main_version_SomeD[OF mv] obtain ma mi pa where
    sp: "split_on CHR ''.'' ?core = [ma, mi, pa]" and
    dig: "list_all is_digit ma" "list_all is_digit mi" "list_all is_digit pa" and
    n: "a = number_of ma" "b = number_of mi" "d = number_of pa"
    by blast
  from sp have "?core = ma @ CHR ''.'' # mi @ CHR ''.'' # pa" by (rule split_on_three)
  moreover obtain rest where "unprefixed l = ?core @ rest"
    using core_prefix by blast
  ultimately show ?thesis
    using dig v n by auto
qed

lemma digits_plain: "list_all is_digit s \<Longrightarrow> list_all is_plain s"
  by (simp add: list_all_iff digit_plain)

lemma digits_no_dot: "list_all is_digit s \<Longrightarrow> CHR ''.'' \<notin> set s"
  using digit_not_dot by (auto simp: list_all_iff)

lemma std_gt_normalization:
  assumes "std_gt l c = Inr True" and "std_valid (cleanVersion l)"
  shows "std_gt l (cleanVersion l) = Inr False"
proof -
  from assms(1) obtain v where v: "parse l = Some v"
    by (auto simp: std_gt_def split: option.splits)
  from assms(2) obtain w where w: "parse (cleanVersion l) = Some w"
    by (auto simp: std_valid_def)
  from parse_core[OF v] obtain ma mi pa rest where
    body: "unprefixed l = (ma @ CHR ''.'' # mi @ CHR ''.'' # pa) @ rest" and
    dig: "list_all is_digit ma" "list_all is_digit mi" "list_all is_digit pa" and
    vv: "major v = number_of ma" "minor v = number_of mi" "patch v = number_of pa"
    by blast
  let ?core = "ma @ CHR ''.'' # mi @ CHR ''.'' # pa"
  let ?e = "cleanVersion rest"
  have core_plain: "list_all is_plain ?core"
    using dig by (simp add: digits_plain dot_plain)
  have clean: "cleanVersion l = ?core @ ?e"
  proof -
    have "cleanVersion l = cleanVersion (unprefixed l)"
      by (simp add: cleanVersion_unprefixed)
    also have "\<dots> = cleanVersion ?core @ ?e"
      by (simp only: body cleanVersion_append)
    also have "cleanVersion ?core = ?core"
      using core_plain by (rule cleanVersion_plain)
    finally show ?thesis .
  qed
  have split_core: "split_on CHR ''.'' ?core = [ma, mi, pa]"
    by (simp add: split_on_sep[OF digits_no_dot[OF dig(1)]]
        split_on_sep[OF digits_no_dot[OF dig(2)]] split_on_free[OF digits_no_dot[OF dig(3)]])
  from parse_plain[OF plain_cleanVersion w] obtain ma' mi' pa' where
    sp': "split_on CHR ''.'' (?core @ ?e) = [ma', mi', pa']" and
    ww: "w = \<lparr>major = number_of ma', minor = number_of mi', patch = number_of pa', pre = []\<rparr>"
    unfolding clean by blast
  have "length (split_on CHR ''.'' (?core @ ?e)) = 3" unfolding sp' by simp
  moreover have "length (split_on CHR ''.'' ?core) = 3" unfolding split_core by simp
  ultimately have "filter (\<lambda>x. x = CHR ''.'') ?e = []"
    unfolding split_on_length using digits_no_dot[OF dig(1)] digits_no_dot[OF dig(2)]
      digits_no_dot[OF dig(3)] by (simp add: filter_empty_conv)
  then have free: "CHR ''.'' \<notin> set ?e"
    by (auto simp: filter_empty_conv)
  have "split_on CHR ''.'' (?core @ ?e) = [ma, mi, pa @ ?e]"
    unfolding split_on_append_free[OF free, of ?core] split_core by simp
  with sp' have "ma' = ma" "mi' = mi" "pa' = pa @ ?e" by simp_all
  with ww vv have "major w = major v" "minor w = minor v" "patch v \<le> patch w" "pre w = []"
    by (simp_all add: number_of_append_ge)
  then have "\<not> 0 < compare v w"
    by (auto simp: compare_def compareMain_def comparePre_def sign_def)
  with v w show ?thesis by (simp add: std_gt_def)
qed

section \<open>Running twice\<close>

lemma outdated_all_None:
  "\<forall>kv \<in> set cat. snd (promise sv registry kv) = Inr None \<Longrightarrow>
     snd (outdated sv registry cat) = Inr []"
  by (induction cat) (simp_all add: outdated_Nil outdated_Cons)

lemma outdated_promise:
  "snd (outdated sv registry cat) = Inr deps \<Longrightarrow> kv \<in> set cat \<Longrightarrow>
     \<exists>r. snd (promise sv registry kv) = Inr r \<and> (\<forall>d. r = Some d \<longrightarrow> d \<in> set deps)"
proof (induction cat arbitrary: deps)
  case Nil
  then show ?case by simp
next
  case (Cons a cat)
  from Cons.prems(1) obtain r deps' where
    r: "snd (promise sv registry a) = Inr r" and
    deps': "snd (outdated sv registry cat) = Inr deps'" and
    deps: "deps = (case r of None \<Rightarrow> deps' | Some d \<Rightarrow> d # deps')"
    by (auto simp: outdated_Cons split: sum.splits)
  show ?case
  proof (cases "kv = a")
    case True
    with r deps show ?thesis by (cases r) auto
  next
    case False
    with Cons.prems(2) have "kv \<in> set cat" by simp
    from Cons.IH[OF deps' this] deps show ?thesis by (cases r) auto
  qed
qed

lemma cleanVersion_caret: "cleanVersion (''^'' @ l) = cleanVersion l"
  by (simp add: cleanVersion_def)

lemma cleanVersion_new_value: "cleanVersion (new_value dep) = cleanVersion (latest dep)"
  by (simp add: new_value_def cleanVersion_def)

lemma outdated_mixed:
  "outdated std example_registry mixed_catalog =
     ([], Inr [\<lparr>name = ''left-pad'', current = ''^1.2.3'', latest = ''1.3.0'', type = Some Minor\<rparr>,
               \<lparr>name = ''next-lib'', current = ''^1.0.0'', latest = ''2.0.0-beta.1'',
                type = Some Premajor\<rparr>])"
  by (simp add: outdated_eval mixed_catalog_def std_eval parse_examples)

text \<open>
  C9. For every catalog, when the full pipeline (audit and update without filters) has
  run and is run again, the registry reporting the same latest versions, the second
  run computes an empty outdated set. This is proved of every run that reaches its
  report, for catalogs with pairwise different names, and for every version library
  with two properties that the \<^verbatim>\<open>semver\<close> package has: the empty string is not a
  version, and a version reported by the registry that compared greater than some
  version is not greater than its own normalization, whenever that normalization is
  a version. The model library has the second property for every text
  (\<open>std_gt_normalization\<close>).
\<close>

theorem second_run_finds_nothing:
  assumes "distinct (map fst (catalog_of doc))"
    and "\<not> valid sv []"
    and "\<forall>n \<in> fst ` set (catalog_of doc). \<forall>l c. registry n = Json l \<longrightarrow>
           gt sv l c = Inr True \<longrightarrow> valid sv (cleanVersion l) \<longrightarrow>
           gt sv l (cleanVersion l) = Inr False"
    and "shouldUpdate f" and "\<not> updatePatch f" and "\<not> updateMinor f" and "\<not> updateMajor f"
    and "snd (outdated sv registry (catalog_of doc)) = Inr deps"
  shows "snd (outdated sv registry
           (catalog_of (case written (checkDependencies sv f registry (Some doc)) of
                          None \<Rightarrow> doc | Some doc' \<Rightarrow> doc'))) = Inr []"
proof (cases "deps = []")
  case True
  with assms(8) have "written (checkDependencies sv f registry (Some doc)) = None"
    by (cases "written (checkDependencies sv f registry (Some doc))")
       (auto simp: written_iff)
  with True assms(8) show ?thesis by simp
next
  case False
  let ?cat = "catalog_of doc"
  let ?cat' = "apply_updates ?cat deps"
  have all: "toUpdate f deps = deps"
    using assms(5,6,7) by (rule toUpdate_no_filter)
  have w: "written (checkDependencies sv f registry (Some doc)) = Some (updated_doc doc deps)"
    using written_eq[OF assms(4,8) False] by (simp add: all)
  have dn: "distinct (map name deps)"
    using assms(1,8) by (rule outdated_distinct)
  have keys: "map fst ?cat' = map fst ?cat"
    by (rule apply_updates_keys)
  have "snd (promise sv registry kv) = Inr None" if kv: "kv \<in> set ?cat'" for kv
  proof -
    obtain k v' where kv_eq: "kv = (k, v')" by (cases kv)
    from assms(1) keys have "distinct (map fst ?cat')" by simp
    with kv kv_eq have look: "map_of ?cat' k = Some v'" by simp
    from kv kv_eq have "k \<in> fst ` set ?cat'" by force
    then have kin: "k \<in> fst ` set ?cat"
      using keys by (metis set_map)
    show ?thesis
    proof (cases "k \<in> name ` set deps")
      case True
      then obtain d where d: "d \<in> set deps" "name d = k" by auto
      from outdated_mem[OF assms(8) d(1)] d(2) obtain v where
        "snd (promise sv registry (k, v)) = Inr (Some d)" by auto
      then obtain s l t where
        reg: "registry k = Json l" and l: "l \<noteq> []" and
        g: "gt sv l (cleanVersion s) = Inr True" and
        deq: "d = \<lparr>name = k, current = s, latest = l, type = t\<rparr>"
        unfolding promise_Some_iff by blast
      from deq have lat: "latest d = l" by simp
      have "map_of ?cat (name d) = Some (YStr (current d))"
        using assms(1,8) d(1) by (rule outdated_current)
      moreover have "truthy (YStr (current d))"
        using outdated_current_nonempty[OF assms(2,8) d(1)] by simp
      ultimately have "map_of ?cat' (name d) = Some (YStr (new_value d))"
        by (rule apply_updates_same[OF dn d(1)])
      with look d(2) have v': "v' = YStr (new_value d)" by simp
      have again: "valid sv (cleanVersion l) \<longrightarrow> gt sv l (cleanVersion l) = Inr False"
        using assms(3) kin reg g by blast
      have "snd (promise sv registry (k, YStr (new_value d))) = Inr None"
        using reg l again
        by (simp add: cleanVersion_new_value lat getLatestVersion_def)
      with kv_eq v' show ?thesis by simp
    next
      case False
      then have "map_of ?cat' k = map_of ?cat k"
        by (rule apply_updates_other)
      with look have "(k, v') \<in> set ?cat" by (simp add: map_of_SomeD)
      from outdated_promise[OF assms(8) this] obtain r where
        r: "snd (promise sv registry (k, v')) = Inr r" "\<forall>d. r = Some d \<longrightarrow> d \<in> set deps"
        by blast
      have "r = None"
      proof (cases r)
        case None
        then show ?thesis .
      next
        case (Some d)
        with r have "d \<in> set deps" "name d = k" by (auto simp: promise_name)
        with False show ?thesis by auto
      qed
      with r(1) kv_eq show ?thesis by simp
    qed
  qed
  then have "snd (outdated sv registry ?cat') = Inr []"
    by (intro outdated_all_None) simp
  with w show ?thesis by (simp add: catalog_of_updated_doc)
qed

theorem second_run_finds_nothing_witness:
  "snd (outdated std example_registry
     (catalog_of (case written (checkDependencies std update_all example_registry
                                  (Some mixed_doc)) of
                    None \<Rightarrow> mixed_doc | Some doc' \<Rightarrow> doc'))) = Inr []"
proof -
  have cat: "catalog_of mixed_doc = mixed_catalog"
    by (simp add: catalog_of_def mixed_doc_def)
  have d: "distinct (map fst (catalog_of mixed_doc))"
    by (simp add: cat mixed_catalog_def)
  have v: "\<not> valid std []" by (simp add: std_def std_valid_def parse_examples)
  have h: "\<forall>n \<in> fst ` set (catalog_of mixed_doc). \<forall>l c. example_registry n = Json l \<longrightarrow>
      gt std l c = Inr True \<longrightarrow> valid std (cleanVersion l) \<longrightarrow>
      gt std l (cleanVersion l) = Inr False"
    by (simp add: std_def std_gt_normalization)
  have u: "shouldUpdate update_all" "\<not> updatePatch update_all" "\<not> updateMinor update_all"
    "\<not> updateMajor update_all" by (simp_all add: update_all_def)
  have out: "snd (outdated std example_registry (catalog_of mixed_doc)) =
      Inr [\<lparr>name = ''left-pad'', current = ''^1.2.3'', latest = ''1.3.0'', type = Some Minor\<rparr>,
           \<lparr>name = ''next-lib'', current = ''^1.0.0'', latest = ''2.0.0-beta.1'',
            type = Some Premajor\<rparr>]"
    by (simp add: cat outdated_mixed)
  from second_run_finds_nothing [OF d v h u out] show ?thesis .
qed

end
